theory Spec2Isabelle
  imports Main "HOL-Library.AList" "HOL-Library.Log_Nat"
begin

section \<open>The news landing page: data model\<close>

text \<open>
  This theory embeds \<^verbatim>\<open>src/shared/components/home/news-landing.tsx\<close>.

  JavaScript strings are modelled as \<^typ>\<open>string\<close>: sequences of code units in the
  range U+0000..U+00FF. An optional field (\<^verbatim>\<open>url?: string\<close>) is a
  \<^typ>\<open>string option\<close>, with \<open>None\<close> for \<^verbatim>\<open>undefined\<close>. The source tests
  optional strings by truthiness (\<^verbatim>\<open>url && ...\<close>, \<^verbatim>\<open>a || b\<close>): a string is
  truthy when it is defined and not empty.
\<close>

definition truthy :: "string option \<Rightarrow> bool" where
  "truthy v = (case v of None \<Rightarrow> False | Some s \<Rightarrow> s \<noteq> [])"

text \<open>\<^verbatim>\<open>a || b\<close> on an optional string \<open>a\<close> and a string \<open>b\<close>.\<close>

definition js_or :: "string option \<Rightarrow> string \<Rightarrow> string" where
  "js_or a b = (case a of None \<Rightarrow> b | Some s \<Rightarrow> if s \<noteq> [] then s else b)"

text \<open>\<^verbatim>\<open>a ?? b\<close>: only \<^verbatim>\<open>undefined\<close> falls through to \<open>b\<close>.\<close>

definition nullish :: "'a option \<Rightarrow> 'a option \<Rightarrow> 'a option" where
  "nullish a b = (case a of None \<Rightarrow> b | Some x \<Rightarrow> Some x)"

text \<open>
  \<^verbatim>\<open>String.prototype.toLowerCase\<close> on the code units below U+0100: the letters A-Z and
  the Latin-1 capitals U+00C0..U+00DE (without the multiplication sign U+00D7) move up by
  32. No code unit outside that range has a lower-case mapping that is one of the letters
  of \<^verbatim>\<open>"mini"\<close> alone.
\<close>

definition lower_char :: "char \<Rightarrow> char" where
  "lower_char c =
     (let n = (of_char c :: nat)
      in if (65 \<le> n \<and> n \<le> 90) \<or> (192 \<le> n \<and> n \<le> 222 \<and> n \<noteq> 215)
         then char_of (n + 32) else c)"

definition toLowerCase :: "string \<Rightarrow> string" where
  "toLowerCase s = map lower_char s"

text \<open>
  \<^verbatim>\<open>String.prototype.trim\<close> removes WhiteSpace and LineTerminator code points from both
  ends; below U+0100 these are TAB, LF, VT, FF, CR, SPACE and NBSP.
\<close>

definition isWhiteSpace :: "char \<Rightarrow> bool" where
  "isWhiteSpace c = ((of_char c :: nat) \<in> {9, 10, 11, 12, 13, 32, 160})"

definition trim :: "string \<Rightarrow> string" where
  "trim s = rev (dropWhile isWhiteSpace (rev (dropWhile isWhiteSpace s)))"

record Tag =
  tag_name :: string
  display_name :: "string option"
  deleted :: bool

record Post =
  post_id :: int
  post_name :: string
  url :: "string option"
  body :: "string option"
  alt_text :: "string option"
  nsfw :: bool
  thumbnail_url :: "string option"
  score :: int
  comments :: int

record Community =
  community_title :: string
  community_nsfw :: bool

record ImageDetails =
  link :: string

record PostView =
  post :: Post
  creator_name :: string
  community :: Community
  image_details :: "ImageDetails option"
  tags :: "Tag list"

record GetPostsResponse =
  posts :: "PostView list"

text \<open>
  \<^verbatim>\<open>RequestState<T>\<close> of the HTTP service: the tag \<^verbatim>\<open>state\<close> is one of
  \<^verbatim>\<open>"empty"\<close>, \<^verbatim>\<open>"loading"\<close>, \<^verbatim>\<open>"success"\<close> (with \<^verbatim>\<open>data\<close>) and
  \<^verbatim>\<open>"failed"\<close> (with \<^verbatim>\<open>err\<close>, of which the page shows \<^verbatim>\<open>err.message\<close>).
\<close>

datatype 'a RequestState = Empty | Loading | Success 'a | Failed string

record NewsLandingState =
  newsPosts :: "GetPostsResponse RequestState"
  galleryPosts :: "GetPostsResponse RequestState"
  localTopPosts :: "GetPostsResponse RequestState"
  isIsomorphic :: bool

section \<open>Post presentation\<close>

text \<open>
  \<^verbatim>\<open>hasMiniTag\<close>: some tag whose \<^verbatim>\<open>(display_name || name || "").toLowerCase()\<close>
  is \<^verbatim>\<open>"mini"\<close>. The name of a tag is a string, on which \<^verbatim>\<open>|| ""\<close> changes nothing.
\<close>

definition tagName :: "Tag \<Rightarrow> string" where
  "tagName tag = toLowerCase (js_or (display_name tag) (tag_name tag))"

definition hasMiniTag :: "Tag list \<Rightarrow> bool" where
  "hasMiniTag ts = list_ex (\<lambda>tag. tagName tag = ''mini'') ts"

text \<open>
  \<^verbatim>\<open>getImageUrl\<close>, with the image predicate \<^verbatim>\<open>isImage\<close> of \<^verbatim>\<open>@utils/media\<close> as a
  parameter. \<^verbatim>\<open>postView.image_details?.link\<close> is \<^verbatim>\<open>undefined\<close> when there are no
  image details.
\<close>

definition details_link :: "PostView \<Rightarrow> string option" where
  "details_link pv = map_option link (image_details pv)"

text \<open>\<^verbatim>\<open>v && isImage(v)\<close> on an optional string.\<close>

definition accepted :: "(string \<Rightarrow> bool) \<Rightarrow> string option \<Rightarrow> bool" where
  "accepted isImage v = (case v of None \<Rightarrow> False | Some s \<Rightarrow> s \<noteq> [] \<and> isImage s)"

definition getImageUrl :: "(string \<Rightarrow> bool) \<Rightarrow> PostView \<Rightarrow> string option" where
  "getImageUrl isImage pv =
     (if truthy (details_link pv) then details_link pv
      else if accepted isImage (url (post pv)) then url (post pv)
      else if accepted isImage (thumbnail_url (post pv)) then thumbnail_url (post pv)
      else None)"




text \<open>
  \<^verbatim>\<open>renderGalleryItem\<close>: the image of the item, shown when
  \<^verbatim>\<open>getImageUrl(postView) ?? postView.post.thumbnail_url\<close> is truthy.
\<close>

definition gallery_thumbnail :: "(string \<Rightarrow> bool) \<Rightarrow> PostView \<Rightarrow> string option" where
  "gallery_thumbnail isImage pv = nullish (getImageUrl isImage pv) (thumbnail_url (post pv))"

definition renderGalleryItem :: "(string \<Rightarrow> bool) \<Rightarrow> PostView \<Rightarrow> string option" where
  "renderGalleryItem isImage pv =
     (let thumbnail = gallery_thumbnail isImage pv
      in if truthy thumbnail then thumbnail else None)"








section \<open>Numbers of the tag cloud\<close>

text \<open>
  The sizes of the tag cloud are JavaScript numbers: IEEE 754 binary64 values, each of
  which is a rational number. An arithmetic operation returns the exact result rounded
  to the nearest value with a 53-bit significand, ties going to the even significand.
  \<open>fl\<close> is that rounding, on the rationals; all values of \<^verbatim>\<open>buildTagCloud\<close> lie
  between \<open>2\<^sup>-\<^sup>5\<^sup>3\<close> and 2, far from overflow and from the subnormal range, so the
  exponent needs no bounds. The counts are integers below \<open>2\<^sup>5\<^sup>3\<close>, which binary64
  holds exactly: they are modelled as \<^typ>\<open>int\<close>.
\<close>

definition round_even :: "rat \<Rightarrow> int" where
  "round_even x =
     (let n = \<lfloor>x\<rfloor>; d = x - of_int n
      in if d < 1/2 then n else if 1/2 < d then n + 1 else if even n then n else n + 1)"

text \<open>The binary exponent of a positive rational: \<open>2 powi e \<le> x < 2 powi (e + 1)\<close>.\<close>

definition expo :: "rat \<Rightarrow> int" where
  "expo x =
     (let (p, q) = quotient_of x; d = bitlen p - bitlen q
      in if 2 powi d \<le> x then d else d - 1)"

definition fl :: "rat \<Rightarrow> rat" where
  "fl x =
     (if x = 0 then 0
      else let u = 2 powi (expo \<bar>x\<bar> - 52) in of_int (round_even (x / u)) * u)"

text \<open>The literals \<^verbatim>\<open>0.85\<close> and \<^verbatim>\<open>1.6\<close> denote the nearest binary64 values.\<close>

definition minSize :: rat where
  "minSize = fl (85 / 100)"

definition maxSize :: rat where
  "maxSize = fl (16 / 10)"

text \<open>
  \<^verbatim>\<open>x.toFixed(2)\<close> is the decimal \<open>n / 100\<close> for the integer \<open>n\<close> with \<open>n / 100 - x\<close>
  closest to zero, the larger \<open>n\<close> if there are two; a negative \<open>x\<close> is formatted as
  \<open>- x\<close> with a sign. \<open>toFixed2\<close> is that \<open>n\<close>. \<^verbatim>\<open>parseFloat\<close> of the decimal is the
  nearest binary64 value.
\<close>

definition toFixed2 :: "rat \<Rightarrow> int" where
  "toFixed2 x = (if x < 0 then - \<lfloor>- x * 100 + 1/2\<rfloor> else \<lfloor>x * 100 + 1/2\<rfloor>)"

definition parseFloat2 :: "int \<Rightarrow> rat" where
  "parseFloat2 n = fl (of_int n / 100)"

text \<open>
  The body of the \<^verbatim>\<open>map\<close> callback of \<^verbatim>\<open>buildTagCloud\<close>:
  \<^verbatim>\<open>parseFloat((minSize + (maxSize - minSize) * ratio).toFixed(2))\<close> with
  \<^verbatim>\<open>ratio = max === min ? 0.5 : (count - min) / (max - min)\<close>.
\<close>

definition tag_size :: "int \<Rightarrow> int \<Rightarrow> int \<Rightarrow> rat" where
  "tag_size mx mn count =
     (let ratio = (if mx = mn then 1/2 else fl (of_int (count - mn) / of_int (mx - mn)))
      in parseFloat2 (toFixed2 (fl (minSize + fl (fl (maxSize - minSize) * ratio)))))"

section \<open>The tag cloud\<close>

text \<open>The label of a tag: \<^verbatim>\<open>(tag.display_name || tag.name || "").trim()\<close>.\<close>

definition label_of :: "Tag \<Rightarrow> string" where
  "label_of tag = trim (js_or (display_name tag) (tag_name tag))"

text \<open>
  \<^verbatim>\<open>counts\<close> is a \<^verbatim>\<open>Map<string, number>\<close>, which keeps its keys in insertion order and
  leaves a key in place when its value is set again: an association list with
  \<^const>\<open>AList.update\<close>. \<open>count_tag\<close> is the body of the inner loop.
\<close>

type_synonym counts = "(string \<times> int) list"

definition count_tag :: "Tag \<Rightarrow> counts \<Rightarrow> counts" where
  "count_tag tag counts =
     (if deleted tag then counts
      else let label = label_of tag
           in if label = [] then counts
              else AList.update label
                     ((case map_of counts label of None \<Rightarrow> 0 | Some c \<Rightarrow> c) + 1) counts)"

definition tag_counts :: "PostView list \<Rightarrow> counts" where
  "tag_counts ps = fold (\<lambda>p. fold count_tag (tags p)) ps []"

record TagCloudEntry =
  entry_name :: string
  entry_size :: rat

text \<open>
  \<^verbatim>\<open>buildTagCloud\<close>. \<^verbatim>\<open>Array.prototype.sort\<close> is stable; with the comparator
  \<^verbatim>\<open>b[1] - a[1]\<close> it sorts by falling count, which \<^const>\<open>sort_key\<close> does on the
  negated count.
\<close>

definition buildTagCloud :: "PostView list \<Rightarrow> TagCloudEntry list" where
  "buildTagCloud ps =
     (let entries = tag_counts ps
      in if entries = [] then []
         else let mx = Max (set (map snd entries));
                  mn = Min (set (map snd entries))
              in map (\<lambda>(name, count). \<lparr> entry_name = name, entry_size = tag_size mx mn count \<rparr>)
                   (sort_key (\<lambda>e. - snd e) entries))"

text \<open>A tag counts for the cloud when it is not deleted and its label is not empty.\<close>

definition qualifying :: "Tag \<Rightarrow> bool" where
  "qualifying tag = (\<not> deleted tag \<and> label_of tag \<noteq> [])"

section \<open>Loading the three feeds\<close>

text \<open>
  The component holds \<^verbatim>\<open>this.state\<close> and, for every call of \<^verbatim>\<open>fetchAll\<close> that has
  reached its \<^verbatim>\<open>await Promise.all([...])\<close>, the three promises of that call: \<open>None\<close>
  while a promise is pending, its value once it has settled. The wrapped client settles
  a \<^verbatim>\<open>getPosts\<close> promise with a request state.
\<close>

datatype feed = News | Gallery | LocalTop

record PromiseAll =
  p_news :: "GetPostsResponse RequestState option"
  p_gallery :: "GetPostsResponse RequestState option"
  p_local :: "GetPostsResponse RequestState option"

record Component =
  state :: NewsLandingState
  pending :: "PromiseAll list"

record RouteData =
  rd_newsPosts :: "GetPostsResponse RequestState"
  rd_galleryPosts :: "GetPostsResponse RequestState"
  rd_localTopPosts :: "GetPostsResponse RequestState"

text \<open>
  The constructor. \<^verbatim>\<open>FirstLoadService.isFirstLoad\<close> and the route data of the ISO data
  are its inputs.
\<close>

definition constructor :: "bool \<Rightarrow> RouteData \<Rightarrow> Component" where
  "constructor isFirstLoad routeData =
     \<lparr> state =
         (if isFirstLoad
          then \<lparr> newsPosts = rd_newsPosts routeData, galleryPosts = rd_galleryPosts routeData,
                 localTopPosts = rd_localTopPosts routeData, isIsomorphic = True \<rparr>
          else \<lparr> newsPosts = Empty, galleryPosts = Empty, localTopPosts = Empty,
                 isIsomorphic = False \<rparr>),
       pending = [] \<rparr>"

text \<open>
  \<^verbatim>\<open>fetchAll\<close> up to its \<^verbatim>\<open>await\<close>: one \<^verbatim>\<open>setState\<close> with the three slots, then the
  three requests are issued. \<open>fetchAll_resume\<close> is the rest of the function, run when
  \<^verbatim>\<open>Promise.all\<close> has the three values: one \<^verbatim>\<open>setState\<close> with the three results.
\<close>

definition fetchAll_start :: "Component \<Rightarrow> Component" where
  "fetchAll_start c =
     \<lparr> state = (state c) \<lparr> newsPosts := Loading, galleryPosts := Loading,
                            localTopPosts := Loading \<rparr>,
       pending = pending c @ [\<lparr> p_news = None, p_gallery = None, p_local = None \<rparr>] \<rparr>"

definition fetchAll_resume :: "NewsLandingState \<Rightarrow> PromiseAll \<Rightarrow> NewsLandingState" where
  "fetchAll_resume s p =
     (case (p_news p, p_gallery p, p_local p) of
        (Some n, Some g, Some l) \<Rightarrow> s \<lparr> newsPosts := n, galleryPosts := g, localTopPosts := l \<rparr>
      | _ \<Rightarrow> s)"

definition all_settled :: "PromiseAll \<Rightarrow> bool" where
  "all_settled p = (p_news p \<noteq> None \<and> p_gallery p \<noteq> None \<and> p_local p \<noteq> None)"

fun promise_of :: "feed \<Rightarrow> PromiseAll \<Rightarrow> GetPostsResponse RequestState option" where
  "promise_of News p = p_news p"
| "promise_of Gallery p = p_gallery p"
| "promise_of LocalTop p = p_local p"

fun settle :: "feed \<Rightarrow> GetPostsResponse RequestState \<Rightarrow> PromiseAll \<Rightarrow> PromiseAll" where
  "settle News r p = p \<lparr> p_news := Some r \<rparr>"
| "settle Gallery r p = p \<lparr> p_gallery := Some r \<rparr>"
| "settle LocalTop r p = p \<lparr> p_local := Some r \<rparr>"

text \<open>
  What can happen to the component: \<^verbatim>\<open>fetchAll\<close> is called (at mount, or by a retry
  button), or the request for one feed of call number \<open>k\<close> settles with \<open>r\<close>. A promise
  settles once. When the last of the three promises of a call settles, the call
  resumes after its \<^verbatim>\<open>await\<close>.
\<close>

datatype event = CallFetchAll | Settle nat feed "GetPostsResponse RequestState"

fun step :: "event \<Rightarrow> Component \<Rightarrow> Component" where
  "step CallFetchAll c = fetchAll_start c"
| "step (Settle k f r) c =
     (if k < length (pending c) \<and> promise_of f (pending c ! k) = None
      then let p = settle f r (pending c ! k);
               c' = c \<lparr> pending := (pending c) [k := p] \<rparr>
           in if all_settled p then c' \<lparr> state := fetchAll_resume (state c') p \<rparr> else c'
      else c)"


text \<open>The states of the component after each event, in order.\<close>

fun trace :: "event list \<Rightarrow> Component \<Rightarrow> NewsLandingState list" where
  "trace [] c = []"
| "trace (e # es) c = state (step e c) # trace es (step e c)"

text \<open>
  \<^verbatim>\<open>componentWillMount\<close>, with the result of \<^verbatim>\<open>isBrowser()\<close> as its input.
\<close>

definition componentWillMount :: "bool \<Rightarrow> Component \<Rightarrow> Component" where
  "componentWillMount isBrowser c =
     (if \<not> isIsomorphic (state c) \<and> isBrowser then step CallFetchAll c else c)"

definition all_loading :: "NewsLandingState \<Rightarrow> bool" where
  "all_loading s = (newsPosts s = Loading \<and> galleryPosts s = Loading \<and> localTopPosts s = Loading)"

fun is_result :: "'a RequestState \<Rightarrow> bool" where
  "is_result (Success d) = True"
| "is_result (Failed e) = True"
| "is_result _ = False"

definition all_results :: "NewsLandingState \<Rightarrow> bool" where
  "all_results s = (is_result (newsPosts s) \<and> is_result (galleryPosts s) \<and> is_result (localTopPosts s))"

text \<open>
  The values of the promises of a call that have settled are results, and an event
  settles a promise with a result: the wrapped client resolves to \<^verbatim>\<open>"success"\<close> or
  \<^verbatim>\<open>"failed"\<close>.
\<close>

definition settled_values :: "PromiseAll \<Rightarrow> bool" where
  "settled_values p = (\<forall>f. case promise_of f p of None \<Rightarrow> True | Some r \<Rightarrow> is_result r)"

fun result_event :: "event \<Rightarrow> bool" where
  "result_event CallFetchAll = True"
| "result_event (Settle k f r) = is_result r"

definition uniform :: "Component \<Rightarrow> bool" where
  "uniform c =
     ((all_loading (state c) \<or> all_results (state c)) \<and> list_all settled_values (pending c))"

definition no_route_data :: RouteData where
  "no_route_data = \<lparr> rd_newsPosts = Empty, rd_galleryPosts = Empty, rd_localTopPosts = Empty \<rparr>"

definition failed_route_data :: RouteData where
  "failed_route_data =
     \<lparr> rd_newsPosts = Failed ''timeout'', rd_galleryPosts = Success \<lparr> posts = [] \<rparr>,
       rd_localTopPosts = Success \<lparr> posts = [] \<rparr> \<rparr>"

fun sample_result :: "feed \<Rightarrow> GetPostsResponse RequestState" where
  "sample_result Gallery = Failed ''network timeout''"
| "sample_result News = Success \<lparr> posts = [] \<rparr>"
| "sample_result LocalTop = Success \<lparr> posts = [] \<rparr>"

definition sample_events :: "event list" where
  "sample_events =
     [Settle 0 Gallery (sample_result Gallery), Settle 0 News (sample_result News),
      CallFetchAll, Settle 0 LocalTop (sample_result LocalTop),
      Settle 1 News (sample_result News)]"


definition get0 :: "counts \<Rightarrow> string \<Rightarrow> int" where
  "get0 c l = (case map_of c l of None \<Rightarrow> 0 | Some v \<Rightarrow> v)"

definition strip_tags :: "PostView \<Rightarrow> PostView" where
  "strip_tags p = p \<lparr> tags := filter qualifying (tags p) \<rparr>"

section \<open>Sample inputs\<close>

text \<open>
  A sample image predicate for concrete evaluations: the URL ends in \<^verbatim>\<open>.png\<close>.
  The predicate of the page is a parameter of the model.
\<close>

definition accept_png :: "string \<Rightarrow> bool" where
  "accept_png s = (drop (length s - 4) s = ''.png'')"

definition sample_post :: Post where
  "sample_post = \<lparr> post_id = 7, post_name = ''Title'', url = None, body = None,
                    alt_text = None, nsfw = False, thumbnail_url = None, score = 3,
                    comments = 1 \<rparr>"

definition sample_view :: PostView where
  "sample_view = \<lparr> post = sample_post, creator_name = ''ann'',
                    community = \<lparr> community_title = ''News'', community_nsfw = False \<rparr>,
                    image_details = None, tags = [] \<rparr>"

definition mk_tag :: "string \<Rightarrow> Tag" where
  "mk_tag s = \<lparr> tag_name = s, display_name = None, deleted = False \<rparr>"

definition view_full :: PostView where
  "view_full = sample_view \<lparr> post := sample_post \<lparr> url := Some ''http://h/a.png'',
        thumbnail_url := Some ''http://h/t.png'', body := Some ''text'' \<rparr>,
        image_details := Some \<lparr> link = ''http://h/x'' \<rparr> \<rparr>"

definition view_link_empty :: PostView where
  "view_link_empty = sample_view \<lparr> post := sample_post \<lparr> url := Some ''http://h/a.png'' \<rparr>,
                                  image_details := Some \<lparr> link = [] \<rparr> \<rparr>"


definition view_thumb :: PostView where
  "view_thumb = sample_view \<lparr> post := sample_post \<lparr> thumbnail_url := Some ''http://h/thumb'' \<rparr> \<rparr>"

definition padded_mini_tag :: Tag where
  "padded_mini_tag = \<lparr> tag_name = ''mini-posts'', display_name = Some '' Mini '', deleted = False \<rparr>"


definition cloud_posts :: "PostView list" where
  "cloud_posts =
     [sample_view \<lparr> tags := [mk_tag ''Mini'', mk_tag '' Funny ''] \<rparr>,
      sample_view \<lparr> tags := [mk_tag ''Funny'', (mk_tag ''Old'') \<lparr> deleted := True \<rparr>, mk_tag ''  ''] \<rparr>]"

definition dead_posts :: "PostView list" where
  "dead_posts = [sample_view \<lparr> tags := [(mk_tag ''Old'') \<lparr> deleted := True \<rparr>, mk_tag ''  ''] \<rparr>, sample_view]"

section \<open>Properties of the post presentation\<close>

lemma truthy_Some [simp]: "truthy (Some s) \<longleftrightarrow> s \<noteq> []"
  by (simp add: truthy_def)

lemma truthy_None [simp]: "\<not> truthy None"
  by (simp add: truthy_def)

lemma truthy_iff: "truthy v \<longleftrightarrow> (\<exists>s. v = Some s \<and> s \<noteq> [])"
  by (cases v) simp_all

lemma getImageUrl_truthy: "getImageUrl isImage pv = Some u \<Longrightarrow> u \<noteq> []"
  by (auto simp: getImageUrl_def accepted_def truthy_iff split: if_splits option.splits)

lemma getImageUrl_None_or_truthy:
  "getImageUrl isImage pv = None \<or> truthy (getImageUrl isImage pv)"
  by (cases "getImageUrl isImage pv") (auto dest: getImageUrl_truthy)

text \<open>
  C5, as the code has it. The resolved image is the link of the image details when that
  link is defined and not empty; otherwise the URL of the post when it is defined, not
  empty and accepted by the image predicate; otherwise the thumbnail URL under the same
  three conditions; otherwise none. In particular a non-empty link \<open>X\<close> of the image
  details is the resolved image whatever the other fields are.
\<close>

theorem getImageUrl_priority:
  "(details_link pv = Some X \<and> X \<noteq> [] \<longrightarrow> getImageUrl isImage pv = Some X) \<and>
   (\<not> truthy (details_link pv) \<and> url (post pv) = Some u \<and> u \<noteq> [] \<and> isImage u
      \<longrightarrow> getImageUrl isImage pv = Some u) \<and>
   (\<not> truthy (details_link pv) \<and> \<not> (\<exists>u. url (post pv) = Some u \<and> u \<noteq> [] \<and> isImage u) \<and>
    thumbnail_url (post pv) = Some t \<and> t \<noteq> [] \<and> isImage t
      \<longrightarrow> getImageUrl isImage pv = Some t) \<and>
   (\<not> truthy (details_link pv) \<and> \<not> (\<exists>u. url (post pv) = Some u \<and> u \<noteq> [] \<and> isImage u) \<and>
    \<not> (\<exists>t. thumbnail_url (post pv) = Some t \<and> t \<noteq> [] \<and> isImage t)
      \<longrightarrow> getImageUrl isImage pv = None)"
  by (auto simp: getImageUrl_def accepted_def truthy_iff split: option.splits)


text \<open>
  At a link of the image details that is present and empty, the URL of the post is
  the resolved image, not the link.
\<close>

theorem getImageUrl_empty_link:
  "details_link view_link_empty = Some [] \<and>
   getImageUrl accept_png view_link_empty = Some ''http://h/a.png''"
  by (simp add: view_link_empty_def sample_view_def sample_post_def details_link_def
      getImageUrl_def accepted_def accept_png_def)

theorem getImageUrl_priority_witness:
  "getImageUrl accept_png view_full = Some ''http://h/x'' \<and>
   getImageUrl accept_png (view_full \<lparr> image_details := None \<rparr>) = Some ''http://h/a.png'' \<and>
   getImageUrl accept_png (view_full \<lparr> image_details := None,
       post := post view_full \<lparr> url := Some ''http://h/page'' \<rparr> \<rparr>) = Some ''http://h/t.png'' \<and>
   getImageUrl accept_png sample_view = None"
  using getImageUrl_priority [where pv = view_full and X = "''http://h/x''" and isImage = accept_png]
    getImageUrl_priority [where pv = "view_full \<lparr> image_details := None \<rparr>"
       and u = "''http://h/a.png''" and isImage = accept_png]
    getImageUrl_priority [where pv = "view_full \<lparr> image_details := None,
       post := post view_full \<lparr> url := Some ''http://h/page'' \<rparr> \<rparr>"
       and isImage = accept_png and t = "''http://h/t.png''"]
    getImageUrl_priority [where pv = sample_view and isImage = accept_png]
  by (simp add: view_full_def sample_view_def sample_post_def details_link_def accept_png_def)






text \<open>
  C10. The image of a gallery item is the resolved image when there is one; when
  there is none it is the thumbnail URL of the post as it is (if that is not empty),
  whether the image predicate accepts it or not.
\<close>

theorem gallery_image_fallback:
  "(getImageUrl isImage pv = Some u \<longrightarrow> renderGalleryItem isImage pv = Some u) \<and>
   (getImageUrl isImage pv = None \<longrightarrow>
      renderGalleryItem isImage pv =
        (if truthy (thumbnail_url (post pv)) then thumbnail_url (post pv) else None)) \<and>
   (getImageUrl isImage pv = None \<and> thumbnail_url (post pv) = Some t \<and> t \<noteq> [] \<and> \<not> isImage t
      \<longrightarrow> renderGalleryItem isImage pv = Some t)"
  by (auto simp: renderGalleryItem_def gallery_thumbnail_def nullish_def Let_def
      dest: getImageUrl_truthy)

theorem gallery_image_fallback_witness:
  "\<not> accept_png ''http://h/thumb'' \<and> getImageUrl accept_png view_thumb = None \<and>
   renderGalleryItem accept_png view_thumb = Some ''http://h/thumb'' \<and>
   renderGalleryItem accept_png view_full = Some ''http://h/x''"
proof -
  have 1: "\<not> accept_png ''http://h/thumb''" by (simp add: accept_png_def)
  have 2: "getImageUrl accept_png view_thumb = None"
    by (simp add: view_thumb_def sample_view_def sample_post_def getImageUrl_def
        details_link_def accepted_def accept_png_def)
  have 3: "thumbnail_url (post view_thumb) = Some ''http://h/thumb''"
    by (simp add: view_thumb_def)
  have 4: "getImageUrl accept_png view_full = Some ''http://h/x''"
    by (simp add: view_full_def sample_view_def getImageUrl_def details_link_def)
  show ?thesis
    using gallery_image_fallback [of accept_png view_thumb _ "''http://h/thumb''"]
      gallery_image_fallback [of accept_png view_full "''http://h/x''"] 1 2 3 4
    by simp
qed


section \<open>Properties of the loading of the feeds\<close>

lemma feed_cases: "(\<forall>f. P f) \<longleftrightarrow> P News \<and> P Gallery \<and> P LocalTop"
  by (metis feed.exhaust)

lemma settled_values_settle:
  "settled_values p \<Longrightarrow> is_result r \<Longrightarrow> settled_values (settle f r p)"
  by (cases f) (auto simp: settled_values_def feed_cases)

lemma resume_all_results:
  "settled_values p \<Longrightarrow> all_settled p \<Longrightarrow> all_results (fetchAll_resume s p)"
  by (auto simp: settled_values_def feed_cases all_settled_def fetchAll_resume_def all_results_def)

lemma uniform_start: "list_all settled_values (pending c) \<Longrightarrow> uniform (fetchAll_start c)"
  by (simp add: uniform_def fetchAll_start_def all_loading_def settled_values_def feed_cases)

lemma uniform_step:
  assumes "uniform c" "result_event e"
  shows "uniform (step e c)"
proof (cases e)
  case CallFetchAll
  then show ?thesis using assms uniform_start by (simp add: uniform_def)
next
  case (Settle k f r)
  show ?thesis
  proof (cases "k < length (pending c) \<and> promise_of f (pending c ! k) = None")
    case False
    then show ?thesis using assms Settle by auto
  next
    case True
    define p where "p = settle f r (pending c ! k)"
    have r: "is_result r" using assms(2) Settle by simp
    have "settled_values (pending c ! k)"
      using assms(1) True by (simp add: uniform_def list_all_length)
    then have p: "settled_values p" unfolding p_def using r by (rule settled_values_settle)
    have all: "list_all settled_values ((pending c) [k := p])"
      using assms(1) p by (auto simp: uniform_def list_all_iff dest: set_update_subset_insert [THEN subsetD])
    show ?thesis
      using True Settle assms(1) all p resume_all_results [OF p]
      by (auto simp: uniform_def Let_def p_def [symmetric])
  qed
qed

lemma uniform_trace:
  "uniform c \<Longrightarrow> list_all result_event es \<Longrightarrow>
     \<forall>s \<in> set (trace es c). all_loading s \<or> all_results s"
proof (induction es arbitrary: c)
  case Nil
  then show ?case by simp
next
  case (Cons e es)
  from Cons.prems have u: "uniform (step e c)" by (simp add: uniform_step)
  then show ?case using Cons.IH [OF u] Cons.prems by (simp add: uniform_def)
qed

text \<open>
  C3. A call of \<^verbatim>\<open>fetchAll\<close> puts the three slots to \<open>Loading\<close> in one transition:
  the first state after the call has all three slots \<open>Loading\<close>. From then on, whatever
  requests settle with whatever results and whatever further calls are made, every state
  has either all three slots \<open>Loading\<close> or all three slots a result; no state has
  some slots \<open>Loading\<close> and others not. Before the call no request of the call can
  settle: an event for the number the call will get leaves the state as it is.
\<close>

theorem fetchAll_loading_atomic:
  assumes "list_all settled_values (pending c)" and "list_all result_event es"
  shows "all_loading (hd (trace (CallFetchAll # es) c)) \<and>
         (\<forall>s \<in> set (trace (CallFetchAll # es) c). all_loading s \<or> all_results s) \<and>
         state (step (Settle (length (pending c)) f r) c) = state c"
proof -
  have u: "uniform (fetchAll_start c)" using assms(1) by (rule uniform_start)
  have "all_loading (state (fetchAll_start c))"
    by (simp add: fetchAll_start_def all_loading_def)
  moreover have "\<forall>s \<in> set (trace es (fetchAll_start c)). all_loading s \<or> all_results s"
    using u assms(2) by (rule uniform_trace)
  ultimately show ?thesis by simp
qed

theorem fetchAll_loading_atomic_witness:
  "list_all settled_values (pending (constructor False no_route_data)) \<and>
   list_all result_event sample_events \<and>
   all_loading (hd (trace (CallFetchAll # sample_events) (constructor False no_route_data))) \<and>
   list_all (\<lambda>s. all_loading s \<or> all_results s)
     (trace (CallFetchAll # sample_events) (constructor False no_route_data)) \<and>
   state (step (Settle 0 News (sample_result News)) (constructor False no_route_data))
     = state (constructor False no_route_data)"
proof -
  have 1: "list_all settled_values (pending (constructor False no_route_data))"
    by (simp add: constructor_def)
  have 2: "list_all result_event sample_events"
    by (simp add: sample_events_def)
  have 3: "length (pending (constructor False no_route_data)) = 0"
    by (simp add: constructor_def)
  show ?thesis
    using fetchAll_loading_atomic [OF 1 2, of News "sample_result News"] 1 2
    unfolding 3 list_all_iff by blast
qed




text \<open>
  C4, as the code has it. On a first load the constructor copies the three request
  states of the route data into the slots as they are and marks the state isomorphic;
  \<^verbatim>\<open>componentWillMount\<close> then calls nothing. \<^verbatim>\<open>fetchAll\<close> is called at mount exactly
  when the load was not a first load and the code runs in a browser.
\<close>

theorem hydration_copies_snapshot:
  "state (componentWillMount isBrowser (constructor True rd)) =
     \<lparr> newsPosts = rd_newsPosts rd, galleryPosts = rd_galleryPosts rd,
       localTopPosts = rd_localTopPosts rd, isIsomorphic = True \<rparr> \<and>
   pending (componentWillMount isBrowser (constructor True rd)) = [] \<and>
   (pending (componentWillMount isBrowser (constructor isFirstLoad rd)) \<noteq> []
      \<longleftrightarrow> \<not> isFirstLoad \<and> isBrowser) \<and>
   (\<not> isFirstLoad \<and> isBrowser \<longrightarrow>
      componentWillMount isBrowser (constructor isFirstLoad rd)
        = step CallFetchAll (constructor isFirstLoad rd))"
  by (simp add: componentWillMount_def constructor_def fetchAll_start_def)

theorem hydration_copies_snapshot_witness:
  "state (componentWillMount True (constructor True failed_route_data)) =
     \<lparr> newsPosts = Failed ''timeout'', galleryPosts = Success \<lparr> posts = [] \<rparr>,
       localTopPosts = Success \<lparr> posts = [] \<rparr>, isIsomorphic = True \<rparr> \<and>
   pending (componentWillMount True (constructor True failed_route_data)) = [] \<and>
   pending (componentWillMount True (constructor False no_route_data)) \<noteq> [] \<and>
   pending (componentWillMount False (constructor False no_route_data)) = [] \<and>
   componentWillMount True (constructor False no_route_data)
     = step CallFetchAll (constructor False no_route_data)"
  using hydration_copies_snapshot [of True failed_route_data True]
    hydration_copies_snapshot [of True no_route_data False]
    hydration_copies_snapshot [of False no_route_data False]
  by (simp add: failed_route_data_def fetchAll_start_def)

text \<open>
  A snapshot whose news entry is a failure: the news slot starts as \<open>Failed\<close>.
\<close>

theorem hydration_failed_slot:
  "newsPosts (state (componentWillMount True (constructor True failed_route_data))) = Failed ''timeout''"
  by (simp add: componentWillMount_def constructor_def failed_route_data_def)


section \<open>Properties of the rounding\<close>

lemma bitlen_pos_bounds:
  assumes "0 < p"
  shows "2 powi (bitlen p - 1) \<le> (of_int p :: rat)" and "(of_int p :: rat) < 2 powi bitlen p"
proof -
  have b: "2 ^ nat (bitlen p - 1) \<le> p" "p < 2 ^ nat (bitlen p)"
    using bitlen_bounds [OF assms] by simp_all
  have ge: "1 \<le> bitlen p"
    using assms bitlen_eq_zero_iff [of p] bitlen_nonneg [of p] by linarith
  have "(of_int (2 ^ nat (bitlen p - 1)) :: rat) \<le> of_int p"
    using b(1) by (simp only: of_int_le_iff)
  then show "2 powi (bitlen p - 1) \<le> (of_int p :: rat)"
    using ge by (simp add: power_int_nonneg_exp)
  have "(of_int p :: rat) < of_int (2 ^ nat (bitlen p))"
    using b(2) by (simp only: of_int_less_iff)
  then show "(of_int p :: rat) < 2 powi bitlen p"
    using ge by (simp add: power_int_nonneg_exp)
qed

lemma expo_bounds:
  assumes "0 < x"
  shows "2 powi expo x \<le> x" and "x < 2 powi (expo x + 1)"
proof -
  obtain p q where pq: "quotient_of x = (p, q)" by (cases "quotient_of x")
  have q: "0 < q" using quotient_of_denom_pos [OF pq] .
  have x: "x = of_int p / of_int q" using quotient_of_div [OF pq] .
  have p: "0 < p" using assms q x by (simp add: zero_less_divide_iff)
  define a where "a = bitlen p"
  define b where "b = bitlen q"
  note pa = bitlen_pos_bounds [OF p, folded a_def]
  note qb = bitlen_pos_bounds [OF q, folded b_def]
  have qpos: "(0::rat) < of_int q" using q by simp
  have "x < 2 powi a / of_int q"
    unfolding x using pa(2) qpos by (simp add: divide_strict_right_mono)
  also have "\<dots> \<le> 2 powi a / 2 powi (b - 1)"
    using qb(1) by (simp add: frac_le)
  also have "\<dots> = 2 powi (a - b + 1)"
    by (simp add: power_int_diff power_int_add)
  finally have up: "x < 2 powi (a - b + 1)" .
  have "(2::rat) powi (a - b - 1) = 2 powi (a - 1) / 2 powi b"
    by (simp add: power_int_diff)
  also have "\<dots> \<le> of_int p / 2 powi b"
    using pa(1) by (simp add: divide_right_mono)
  also have "\<dots> < of_int p / of_int q"
    using qb(2) p qpos by (simp add: frac_less2)
  finally have lo: "2 powi (a - b - 1) < x" unfolding x .
  have e: "expo x = (if 2 powi (a - b) \<le> x then a - b else a - b - 1)"
    by (simp add: expo_def pq a_def b_def Let_def)
  show "2 powi expo x \<le> x" using lo by (simp add: e)
  show "x < 2 powi (expo x + 1)" using up by (simp add: e)
qed

lemma two_powi_less_D: "(2::rat) powi m < 2 powi n \<Longrightarrow> m < n"
  using power_int_increasing [of n m "2::rat"] by (cases "m < n") auto

lemma expo_unique:
  assumes "0 < x" "2 powi e \<le> x" "x < 2 powi (e + 1)"
  shows "expo x = e"
proof -
  have "(2::rat) powi e < 2 powi (expo x + 1)"
    using assms(2) expo_bounds(2) [OF assms(1)] by linarith
  then have 1: "e < expo x + 1" by (auto dest: two_powi_less_D)
  have "(2::rat) powi expo x < 2 powi (e + 1)"
    using assms(3) expo_bounds(1) [OF assms(1)] by linarith
  then have 2: "expo x < e + 1" by (auto dest: two_powi_less_D)
  from 1 2 show ?thesis by linarith
qed













lemma size_consts:
  "fl minSize = minSize" "fl (fl (maxSize - minSize)) = fl (maxSize - minSize)"
  "fl (minSize + fl (maxSize - minSize)) = maxSize"
  "0 \<le> minSize" "0 \<le> fl (maxSize - minSize)" "fl 0 = 0" "fl 1 = 1"
  "toFixed2 minSize = 85" "toFixed2 maxSize = 160"
  by code_simp+


section \<open>Properties of the tag cloud\<close>

lemma count_tag_skip: "\<not> qualifying t \<Longrightarrow> count_tag t c = c"
  by (auto simp: count_tag_def qualifying_def Let_def)

lemma count_tag_qualifying:
  "qualifying t \<Longrightarrow> count_tag t c = AList.update (label_of t) (get0 c (label_of t) + 1) c"
  by (auto simp: count_tag_def qualifying_def Let_def get0_def)

lemma fold_count_tag_filter: "fold count_tag (filter qualifying ts) c = fold count_tag ts c"
  by (induction ts arbitrary: c) (simp_all add: count_tag_skip)

lemma fold_posts_strip:
  "fold (\<lambda>p. fold count_tag (tags p)) (map strip_tags ps) c = fold (\<lambda>p. fold count_tag (tags p)) ps c"
  by (induction ps arbitrary: c) (simp_all add: strip_tags_def fold_count_tag_filter)

lemma tag_counts_strip: "tag_counts (map strip_tags ps) = tag_counts ps"
  by (simp add: tag_counts_def fold_posts_strip)

lemma fold_posts_concat:
  "fold (\<lambda>p. fold count_tag (tags p)) ps c = fold count_tag (concat (map tags ps)) c"
  by (induction ps arbitrary: c) simp_all

lemma keys_count_tag:
  "fst ` set (count_tag t c) = fst ` set c \<union> (if qualifying t then {label_of t} else {})"
proof (cases "qualifying t")
  case True
  have "fst ` set (AList.update k v c) = insert k (fst ` set c)" for k v
    using dom_update [of k v c] by (simp add: dom_map_of_conv_image_fst)
  then show ?thesis using True by (simp add: count_tag_qualifying)
next
  case False
  then show ?thesis by (simp add: count_tag_skip)
qed

lemma keys_fold_count_tag:
  "fst ` set (fold count_tag ts c) = fst ` set c \<union> label_of ` {t \<in> set ts. qualifying t}"
  by (induction ts arbitrary: c) (auto simp: keys_count_tag)

lemma keys_tag_counts:
  "fst ` set (tag_counts ps) = label_of ` {t. (\<exists>p \<in> set ps. t \<in> set (tags p)) \<and> qualifying t}"
  by (auto simp: tag_counts_def fold_posts_concat keys_fold_count_tag)









lemma buildTagCloud_names:
  "map entry_name (buildTagCloud ps) = map fst (sort_key (\<lambda>e. - snd e) (tag_counts ps))"
  by (simp add: buildTagCloud_def Let_def case_prod_beta comp_def)

lemma sort_key_Nil_iff: "sort_key f xs = [] \<longleftrightarrow> xs = []"
  by (metis set_empty set_sort sort_key_simps(1))

lemma buildTagCloud_Nil_iff: "buildTagCloud ps = [] \<longleftrightarrow> tag_counts ps = []"
  by (simp add: buildTagCloud_def Let_def sort_key_Nil_iff)

lemma buildTagCloud_strip: "buildTagCloud (map strip_tags ps) = buildTagCloud ps"
  by (simp add: buildTagCloud_def tag_counts_strip)


lemma size_top: "toFixed2 (fl (minSize + fl (fl (maxSize - minSize) * 1))) = 160"
  by code_simp

lemma parseFloat2_160: "parseFloat2 160 = maxSize"
  by (simp add: parseFloat2_def maxSize_def)



lemma tag_size_max:
  assumes "mn < mx"
  shows "tag_size mx mn mx = maxSize"
proof -
  have "(of_int (mx - mn) :: rat) / of_int (mx - mn) = 1" using assms by simp
  then have "tag_size mx mn mx = parseFloat2 (toFixed2 (fl (minSize + fl (fl (maxSize - minSize) * 1))))"
    using assms unfolding tag_size_def Let_def by (simp only: size_consts if_False) simp
  then show ?thesis by (simp only: size_top parseFloat2_160)
qed














lemma tc: "tag_counts cloud_posts = [(''Mini'', 1), (''Funny'', 2)]"
  by code_simp


lemma tc0: "tag_counts dead_posts = []"
  by code_simp

lemma dead_eval: "buildTagCloud dead_posts = []"
  by (simp add: buildTagCloud_def tc0)


lemma tag_size_min: "tag_size 2 1 1 = minSize"
  by code_simp

lemma cloud_eval: "buildTagCloud cloud_posts =
   [\<lparr> entry_name = ''Funny'', entry_size = maxSize \<rparr>, \<lparr> entry_name = ''Mini'', entry_size = minSize \<rparr>]"
  by (simp add: buildTagCloud_def tc tag_size_max tag_size_min)


lemma hasMiniTag_iff:
  "hasMiniTag ts \<longleftrightarrow> (\<exists>t \<in> set ts. toLowerCase (js_or (display_name t) (tag_name t)) = ''mini'')"
  by (simp add: hasMiniTag_def list_ex_iff tagName_def)

lemma sample_labels:
  "qualifying (mk_tag ''Mini'')" "qualifying (mk_tag ''a'')"
  "label_of (mk_tag ''  '') = []" "deleted ((mk_tag ''Old'') \<lparr> deleted := True \<rparr>)"
  by code_simp+



text \<open>
  C8. The names of the tag cloud are exactly the labels of the tags that are not
  deleted and whose trimmed label is not empty; taking every other tag out of the posts
  leaves the tag cloud as it is; the tag cloud of no posts is empty, and so is the tag
  cloud of posts whose tags are all deleted or without a label.
\<close>

theorem tag_cloud_excludes:
  "set (map entry_name (buildTagCloud ps))
     = {label_of t | t. (\<exists>p \<in> set ps. t \<in> set (tags p)) \<and> \<not> deleted t \<and> label_of t \<noteq> []} \<and>
   buildTagCloud (map strip_tags ps) = buildTagCloud ps \<and>
   buildTagCloud [] = [] \<and>
   ((\<forall>p \<in> set ps. \<forall>t \<in> set (tags p). deleted t \<or> label_of t = []) \<longrightarrow> buildTagCloud ps = [])"
proof -
  have 1: "set (map entry_name (buildTagCloud ps))
     = {label_of t | t. (\<exists>p \<in> set ps. t \<in> set (tags p)) \<and> \<not> deleted t \<and> label_of t \<noteq> []}"
    unfolding buildTagCloud_names using keys_tag_counts [of ps]
    by (auto simp: qualifying_def)
  have 2: "buildTagCloud [] = []"
    by (simp add: buildTagCloud_def tag_counts_def)
  have 3: "buildTagCloud ps = []" if "\<forall>p \<in> set ps. \<forall>t \<in> set (tags p). deleted t \<or> label_of t = []"
  proof -
    have "fst ` set (tag_counts ps) = {}"
      unfolding keys_tag_counts using that by (auto simp: qualifying_def)
    then show ?thesis by (simp add: buildTagCloud_Nil_iff)
  qed
  from 1 2 3 buildTagCloud_strip show ?thesis by blast
qed

theorem tag_cloud_excludes_witness:
  "map entry_name (buildTagCloud cloud_posts) = [''Funny'', ''Mini''] \<and>
   buildTagCloud (map strip_tags cloud_posts) = buildTagCloud cloud_posts \<and>
   buildTagCloud dead_posts = []"
proof -
  have d: "\<forall>p \<in> set dead_posts. \<forall>t \<in> set (tags p). deleted t \<or> label_of t = []"
    using sample_labels(3,4) by (simp add: dead_posts_def sample_view_def)
  show ?thesis
    using tag_cloud_excludes [of dead_posts] tag_cloud_excludes [of cloud_posts] d
    by (simp add: cloud_eval)
qed




text \<open>
  C2 at a tag displayed as \<^verbatim>\<open>" Mini "\<close>: \<^const>\<open>hasMiniTag\<close> compares the label as it
  is, so the tag is no mini-marker, while the label that \<^verbatim>\<open>buildTagCloud\<close> computes
  for the same tag is trimmed and is \<^verbatim>\<open>"mini"\<close> in lower case.
\<close>

theorem hasMiniTag_keeps_padding:
  "hasMiniTag [padded_mini_tag] = False \<and> label_of padded_mini_tag = ''Mini'' \<and>
   toLowerCase (label_of padded_mini_tag) = ''mini''"
  by code_simp

end
